theory Spec2Isabelle
  imports Complex_Main "HOL-Library.Word"
begin

unbundle bit_operations_syntax

section \<open>Gesture key on a 3-axis gyroscope: the sources embedded\<close>

text \<open>
  The development follows the three translation units of the repository:
  \<^verbatim>\<open>gyro.cpp\<close> (calibration and initialisation of the sensor),
  \<^verbatim>\<open>utilities.cpp\<close> (correlation and trimming) and \<^verbatim>\<open>main.cpp\<close> (moving-average
  filter, normalisation and the record/unlock handlers of \<^verbatim>\<open>gyroscope_thread\<close>).
  Global variables of the C++ program are fields of explicit state records; functions
  that mutate them take the record and return the updated one. The SPI bus, the LCD,
  the timers and the event flags are outside the model: a sensor is a function from the
  number of a reading to the raw sample it delivers, and what the acquisition loop
  recorded is an argument of the handlers.
\<close>

subsection \<open>Constants of the missing header \<^verbatim>\<open>system_config.h\<close>\<close>

text \<open>
  \<^verbatim>\<open>system_config.h\<close> is not among the sources. The constants the modelled functions
  read from it are the fields of a record that every function using one takes as a
  parameter; the theorems hold for every value of it.
\<close>

record system_config =
  FULL_SCALE_245 :: "8 word"
  FULL_SCALE_500 :: "8 word"
  FULL_SCALE_2000 :: "8 word"
  FULL_SCALE_2000_ALT :: "8 word"
  SENSITIVITY_245 :: real
  SENSITIVITY_500 :: real
  SENSITIVITY_2000 :: real
  CORRELATION_THRESHOLD :: real

text \<open>
  One instance, for closed statements: the selector bits and the sensitivities (dps per
  digit) that the data sheet of the L3GD20 gyroscope gives for CTRL\_REG4, and a
  threshold inside (0,1). The sensitivities are the decimal numbers of the data sheet,
  as written before the conversion to \<^verbatim>\<open>float\<close>.
\<close>

definition datasheet_config :: system_config where
  "datasheet_config =
     \<lparr>FULL_SCALE_245 = 0x00, FULL_SCALE_500 = 0x10, FULL_SCALE_2000 = 0x20,
      FULL_SCALE_2000_ALT = 0x30, SENSITIVITY_245 = 875 / 100000,
      SENSITIVITY_500 = 175 / 10000, SENSITIVITY_2000 = 7 / 100,
      CORRELATION_THRESHOLD = 1 / 2\<rparr>"

subsection \<open>\<^verbatim>\<open>gyro.cpp\<close>: raw data and the calibration globals\<close>

type_synonym int16 = "16 word"

record Gyroscope_Init_Parameters =
  conf1 :: "8 word"
  conf3 :: "8 word"
  conf4 :: "8 word"

record Gyroscope_RawData =
  x_raw :: int16
  y_raw :: int16
  z_raw :: int16

text \<open>
  The file-scope variables of \<^verbatim>\<open>gyro.cpp\<close>. \<^verbatim>\<open>gyro_raw\<close> is the object the pointer of
  that name refers to. C++ zero-initialises variables of static storage duration, which
  is \<open>gyro_globals_init\<close>.
\<close>

record gyro_globals =
  x_threshold :: int16
  y_threshold :: int16
  z_threshold :: int16
  x_sample :: int16
  y_sample :: int16
  z_sample :: int16
  sensitivity :: real
  gyro_raw :: Gyroscope_RawData

definition gyro_globals_init :: gyro_globals where
  "gyro_globals_init =
     \<lparr>x_threshold = 0, y_threshold = 0, z_threshold = 0,
      x_sample = 0, y_sample = 0, z_sample = 0, sensitivity = 0,
      gyro_raw = \<lparr>x_raw = 0, y_raw = 0, z_raw = 0\<rparr>\<rparr>"

text \<open>\<^verbatim>\<open>max\<close> on two \<^verbatim>\<open>int16_t\<close>: \<^verbatim>\<open>(a < b) ? b : a\<close>, the comparison signed.\<close>

definition max_int16 :: "int16 \<Rightarrow> int16 \<Rightarrow> int16" where
  "max_int16 a b = (if a <s b then b else a)"

text \<open>
  The three accumulators \<^verbatim>\<open>sumX\<close>, \<^verbatim>\<open>sumY\<close>, \<^verbatim>\<open>sumZ\<close> of \<^verbatim>\<open>CalibrateGyroscope\<close> are
  \<^verbatim>\<open>int16_t\<close>: \<^verbatim>\<open>sumX += rawdata->x_raw\<close> adds in \<^verbatim>\<open>int\<close> and converts the result back
  to 16 bits, which is addition of 16-bit words.
\<close>

record calibration_sums =
  sumX :: int16
  sumY :: int16
  sumZ :: int16

text \<open>One pass of the loop body, on the reading \<open>r\<close> that \<^verbatim>\<open>GetGyroValue\<close> delivered.\<close>

fun calibrate_step ::
  "Gyroscope_RawData \<Rightarrow> calibration_sums \<times> gyro_globals \<Rightarrow> calibration_sums \<times> gyro_globals" where
  "calibrate_step r (s, g) =
     (\<lparr>sumX = sumX s + x_raw r, sumY = sumY s + y_raw r, sumZ = sumZ s + z_raw r\<rparr>,
      g\<lparr>gyro_raw := r,
        x_threshold := max_int16 (x_threshold g) (x_raw r),
        y_threshold := max_int16 (y_threshold g) (y_raw r),
        z_threshold := max_int16 (z_threshold g) (z_raw r)\<rparr>)"

text \<open>
  \<^verbatim>\<open>for (int i = 0; i < 128; i++)\<close> over the readings \<open>sensor 0\<close>, ..., \<open>sensor 127\<close>,
  then \<^verbatim>\<open>x_sample = sumX >> 7\<close>: the shift of a (promoted) signed value is arithmetic.
\<close>

definition CalibrateGyroscope :: "(nat \<Rightarrow> Gyroscope_RawData) \<Rightarrow> gyro_globals \<Rightarrow> gyro_globals" where
  "CalibrateGyroscope sensor g =
     (case fold calibrate_step (map sensor [0..<128]) (\<lparr>sumX = 0, sumY = 0, sumZ = 0\<rparr>, g) of
        (s, g') \<Rightarrow>
          g'\<lparr>x_sample := signed_drop_bit 7 (sumX s),
             y_sample := signed_drop_bit 7 (sumY s),
             z_sample := signed_drop_bit 7 (sumZ s)\<rparr>)"

text \<open>
  \<^verbatim>\<open>InitiateGyroscope\<close>: the register writes go to the bus; the \<^verbatim>\<open>switch\<close> on
  \<^verbatim>\<open>conf4\<close> has four cases and no \<^verbatim>\<open>default\<close>; calibration follows in every case.
  The function returns \<^verbatim>\<open>void\<close>.
\<close>

definition InitiateGyroscope ::
  "system_config \<Rightarrow> Gyroscope_Init_Parameters \<Rightarrow> (nat \<Rightarrow> Gyroscope_RawData) \<Rightarrow>
   gyro_globals \<Rightarrow> gyro_globals" where
  "InitiateGyroscope cfg init_parameters sensor g =
     CalibrateGyroscope sensor
       (g\<lparr>sensitivity :=
            (if conf4 init_parameters = FULL_SCALE_245 cfg then SENSITIVITY_245 cfg
             else if conf4 init_parameters = FULL_SCALE_500 cfg then SENSITIVITY_500 cfg
             else if conf4 init_parameters = FULL_SCALE_2000 cfg then SENSITIVITY_2000 cfg
             else if conf4 init_parameters = FULL_SCALE_2000_ALT cfg then SENSITIVITY_2000 cfg
             else sensitivity g)\<rparr>)"

text \<open>A sensor at rest that delivers the same value on the three axes at every reading.\<close>

definition constant_sensor :: "int16 \<Rightarrow> nat \<Rightarrow> Gyroscope_RawData" where
  "constant_sensor v = (\<lambda>_. \<lparr>x_raw = v, y_raw = v, z_raw = v\<rparr>)"

subsection \<open>Single-precision arithmetic\<close>

text \<open>
  A finite \<^verbatim>\<open>float\<close> is modelled by the real number it denotes, and every arithmetic
  operation of the source by the exact operation followed by rounding to the nearest
  number with a 24-bit significand, ties to the even significand (the IEEE 754 default,
  which the target's FPU implements). The exponent range is not bounded: overflow to
  infinity and gradual underflow are outside the model, and so is the contraction of a
  multiplication and an addition into one fused operation. The values of the program
  are products of a 16-bit reading and a sensitivity below 1, and sums and quotients of
  a few of them, far inside the range. \<open>rne\<close> rounds a real to the nearest integer,
  ties to even; \<open>f32\<close> scales the magnitude into \<open>[2^23, 2^24)\<close>, rounds it there and
  scales back.
\<close>

definition rne :: "real \<Rightarrow> int" where
  "rne q =
     (let f = \<lfloor>q\<rfloor> in
      if q - of_int f < 1 / 2 then f
      else if 1 / 2 < q - of_int f then f + 1
      else if even f then f else f + 1)"

definition f32 :: "real \<Rightarrow> real" where
  "f32 x =
     (if x = 0 then 0
      else sgn x * (of_int (rne (\<bar>x\<bar> / 2 powi (\<lfloor>log 2 \<bar>x\<bar>\<rfloor> - 23))) * 2 powi (\<lfloor>log 2 \<bar>x\<bar>\<rfloor> - 23)))"

definition fadd :: "real \<Rightarrow> real \<Rightarrow> real" where
  "fadd a b = f32 (a + b)"

definition fsub :: "real \<Rightarrow> real \<Rightarrow> real" where
  "fsub a b = f32 (a - b)"

definition fmul :: "real \<Rightarrow> real \<Rightarrow> real" where
  "fmul a b = f32 (a * b)"

text \<open>Every division of the modelled code has a divisor that is not zero.\<close>

definition fdiv :: "real \<Rightarrow> real \<Rightarrow> real" where
  "fdiv a b = f32 (a / b)"

text \<open>\<^verbatim>\<open>sqrt\<close>, on an argument that is not negative.\<close>

definition fsqrt :: "real \<Rightarrow> real" where
  "fsqrt a = f32 (sqrt a)"

text \<open>
  A \<^verbatim>\<open>float\<close> that may be NaN: the result of \<^verbatim>\<open>correlation\<close>. A comparison with NaN
  is false.
\<close>

datatype float32 = NaN | Finite real

fun exceeds :: "float32 \<Rightarrow> real \<Rightarrow> bool" where
  "exceeds NaN t = False"
| "exceeds (Finite r) t = (t < r)"

subsection \<open>\<^verbatim>\<open>utilities.cpp\<close>: correlation\<close>

text \<open>A gesture sample, \<^verbatim>\<open>array<float, 3>\<close>, and its component \<^verbatim>\<open>[i]\<close>.\<close>

type_synonym sample = "real \<times> real \<times> real"

fun axis :: "nat \<Rightarrow> sample \<Rightarrow> real" where
  "axis i (x, y, z) = (if i = 0 then x else if i = 1 then y else z)"

text \<open>
  The first loop of \<^verbatim>\<open>correlation\<close>: is there an index at which \<^verbatim>\<open>a[i]\<close> or \<^verbatim>\<open>b[i]\<close>
  is not zero. The two vectors have the same length here.
\<close>

fun has_variation :: "real list \<Rightarrow> real list \<Rightarrow> bool" where
  "has_variation (x # xs) (y # ys) = (if x \<noteq> 0 \<or> y \<noteq> 0 then True else has_variation xs ys)"
| "has_variation _ _ = False"

record correlation_sums =
  sum_a :: real
  sum_b :: real
  sum_ab :: real
  sq_sum_a :: real
  sq_sum_b :: real

text \<open>The body of the second loop, on \<^verbatim>\<open>a[i]\<close> and \<^verbatim>\<open>b[i]\<close>.\<close>

fun correlation_step :: "real \<times> real \<Rightarrow> correlation_sums \<Rightarrow> correlation_sums" where
  "correlation_step (ai, bi) s =
     (let delta_a = fsub ai (sum_a s);
          delta_b = fsub bi (sum_b s)
      in \<lparr>sum_a = fadd (sum_a s) delta_a,
          sum_b = fadd (sum_b s) delta_b,
          sum_ab = fadd (sum_ab s) (fmul delta_a delta_b),
          sq_sum_a = fadd (sq_sum_a s) (fmul ai ai),
          sq_sum_b = fadd (sq_sum_b s) (fmul bi bi)\<rparr>)"

text \<open>
  \<^verbatim>\<open>correlation\<close>. The length \<^verbatim>\<open>n\<close> is converted to \<^verbatim>\<open>float\<close> where it divides. The
  square root of a negative number is NaN, NaN is not equal to zero and a quotient by
  NaN is NaN: that is the branch \<open>radicand < 0\<close>.
\<close>

definition correlation :: "real list \<Rightarrow> real list \<Rightarrow> float32" where
  "correlation a b =
     (if length a \<noteq> length b then NaN
      else if \<not> has_variation a b then NaN
      else
        let s = fold correlation_step (zip a b)
                  \<lparr>sum_a = 0, sum_b = 0, sum_ab = 0, sq_sum_a = 0, sq_sum_b = 0\<rparr>;
            n = f32 (of_nat (length a));
            numerator = fsub (sum_ab s) (fdiv (fmul (sum_a s) (sum_b s)) n);
            radicand = fmul (fsub (sq_sum_a s) (fdiv (fmul (sum_a s) (sum_a s)) n))
                            (fsub (sq_sum_b s) (fdiv (fmul (sum_b s) (sum_b s)) n))
        in if radicand < 0 then NaN
           else let denominator = fsqrt radicand
                in if denominator = 0 then NaN else Finite (fdiv numerator denominator))"

text \<open>
  \<^verbatim>\<open>vector::resize\<close>: the first \<open>n\<close> elements, filled up with value-initialised
  elements when the vector is shorter.
\<close>

definition resize :: "nat \<Rightarrow> sample list \<Rightarrow> sample list" where
  "resize n v = take n v @ replicate (n - length v) (0, 0, 0)"

text \<open>
  \<^verbatim>\<open>calculateCorrelationVectors\<close> takes both vectors by reference and may resize them:
  the model returns the three correlations and the two vectors as the call leaves them.
\<close>

definition calculateCorrelationVectors ::
  "sample list \<Rightarrow> sample list \<Rightarrow> float32 list \<times> sample list \<times> sample list" where
  "calculateCorrelationVectors vec1 vec2 =
     (let min_size = min (length vec1) (length vec2);
          vec1' = (if length vec1 \<noteq> length vec2 then resize min_size vec1 else vec1);
          vec2' = (if length vec1 \<noteq> length vec2 then resize min_size vec2 else vec2)
      in (map (\<lambda>i. correlation (map (axis i) vec1') (map (axis i) vec2')) [0, 1, 2],
          vec1', vec2'))"

subsection \<open>\<^verbatim>\<open>utilities.cpp\<close>: trimming\<close>

text \<open>
  The iterators of \<^verbatim>\<open>trim_gyro_data\<close> are indices into the vector; \<^verbatim>\<open>data.end()\<close> is
  the index \<open>length data\<close>. Dereferencing an iterator that is not inside
  \<open>[begin, end)\<close> is the fault \<open>OutOfBounds\<close>, and the function's result is either that
  fault or the vector as the call leaves it.
\<close>

datatype fault = OutOfBounds

text \<open>
  \<^verbatim>\<open>float threshold = 0.00001;\<close> The literal is converted to \<^verbatim>\<open>float\<close>, which rounds it
  (to \<open>10995116 * 2^-40\<close>, see \<open>threshold_value\<close>).
\<close>

definition threshold :: real where
  "threshold = f32 (1 / 100000)"

text \<open>
  The condition of both \<^verbatim>\<open>while\<close> loops on the sample \<^verbatim>\<open>*ptr\<close>; \<^verbatim>\<open>abs\<close> is taken on
  \<^verbatim>\<open>float\<close> and is exact.
\<close>

fun below_threshold :: "sample \<Rightarrow> bool" where
  "below_threshold (x, y, z) = (\<bar>x\<bar> \<le> threshold \<and> \<bar>y\<bar> \<le> threshold \<and> \<bar>z\<bar> \<le> threshold)"

text \<open>
  The first loop, from \<^verbatim>\<open>ptr = data.begin()\<close>: it tests \<^verbatim>\<open>*ptr\<close> before anything else,
  also when \<^verbatim>\<open>ptr\<close> has reached \<^verbatim>\<open>data.end()\<close>.
\<close>

function scan_forward :: "sample list \<Rightarrow> nat \<Rightarrow> fault + nat" where
  "scan_forward data ptr =
     (if length data \<le> ptr then Inl OutOfBounds
      else if below_threshold (data ! ptr) then scan_forward data (ptr + 1)
      else Inr ptr)"
  by pat_completeness auto
termination
  by (relation "measure (\<lambda>(data, ptr). length data - ptr)") auto

text \<open>
  The second loop, from \<^verbatim>\<open>ptr = data.end() - 1\<close> downwards; stepping below
  \<^verbatim>\<open>data.begin()\<close> and testing \<^verbatim>\<open>*ptr\<close> there is the fault as well.
\<close>

function scan_backward :: "sample list \<Rightarrow> nat \<Rightarrow> fault + nat" where
  "scan_backward data ptr =
     (if length data \<le> ptr then Inl OutOfBounds
      else if below_threshold (data ! ptr) then
        (if ptr = 0 then Inl OutOfBounds else scan_backward data (ptr - 1))
      else Inr ptr)"
  by pat_completeness auto
termination
  by (relation "measure (\<lambda>(data, ptr). ptr)") auto

text \<open>
  The copying loop
  \<^verbatim>\<open>for (; replace_ptr != lptr && lptr <= rptr; replace_ptr++, lptr++) *replace_ptr = *lptr;\<close>
  returns the vector and the two iterators it moved.
\<close>

function shift_active :: "sample list \<Rightarrow> nat \<Rightarrow> nat \<Rightarrow> nat \<Rightarrow> sample list \<times> nat \<times> nat" where
  "shift_active data replace_ptr lptr rptr =
     (if replace_ptr \<noteq> lptr \<and> lptr \<le> rptr
      then shift_active (data[replace_ptr := data ! lptr]) (replace_ptr + 1) (lptr + 1) rptr
      else (data, replace_ptr, lptr))"
  by pat_completeness auto
termination
  by (relation "measure (\<lambda>(data, replace_ptr, lptr, rptr). rptr + 1 - lptr)") auto

text \<open>\<^verbatim>\<open>data.erase(first, data.end())\<close> keeps the elements before \<^verbatim>\<open>first\<close>.\<close>

definition trim_gyro_data :: "sample list \<Rightarrow> fault + sample list" where
  "trim_gyro_data data =
     (case scan_forward data 0 of
        Inl e \<Rightarrow> Inl e
      | Inr lptr \<Rightarrow>
          if lptr = length data then Inr data
          else
            (case scan_backward data (length data - 1) of
               Inl e \<Rightarrow> Inl e
             | Inr rptr \<Rightarrow>
                 (case shift_active data 0 lptr rptr of
                    (data', replace_ptr, lptr') \<Rightarrow>
                      if rptr < lptr' then Inr (take replace_ptr data')
                      else Inr (take (rptr + 1) data'))))"

subsection \<open>\<^verbatim>\<open>main.cpp\<close>: moving-average filter and normalisation\<close>

text \<open>
  The filter state of one axis: \<^verbatim>\<open>gyro_buffer_x\<close>, \<^verbatim>\<open>gyro_index_x\<close>, \<^verbatim>\<open>gyro_sum_x\<close> (and
  the same for y and z), zero-initialised.
\<close>

definition WINDOW_SIZE :: nat where
  "WINDOW_SIZE = 5"

record filter_state =
  gyro_buffer :: "real list"
  gyro_index :: nat
  gyro_sum :: real

definition filter_init :: filter_state where
  "filter_init = \<lparr>gyro_buffer = replicate WINDOW_SIZE 0, gyro_index = 0, gyro_sum = 0\<rparr>"

text \<open>
  \<^verbatim>\<open>movingAverageFilter\<close> returns the average and leaves the three references updated.
  \<^verbatim>\<open>buffer[index]\<close> is not checked by \<^verbatim>\<open>std::array\<close>: an index outside the buffer is
  the fault.
\<close>

definition movingAverageFilter :: "real \<Rightarrow> filter_state \<Rightarrow> fault + real \<times> filter_state" where
  "movingAverageFilter new_value st =
     (if length (gyro_buffer st) \<le> gyro_index st then Inl OutOfBounds
      else
        let sum1 = fsub (gyro_sum st) (gyro_buffer st ! gyro_index st);
            buffer = (gyro_buffer st)[gyro_index st := new_value];
            sum2 = fadd sum1 new_value;
            index = (gyro_index st + 1) mod WINDOW_SIZE
        in Inr (fdiv sum2 (f32 (of_nat WINDOW_SIZE)),
                \<lparr>gyro_buffer = buffer, gyro_index = index, gyro_sum = sum2\<rparr>))"

text \<open>
  A run of the filter on the values of one axis, one call per acquisition: the averages
  returned, in order, and the state after the last call.
\<close>

fun filter_run :: "real list \<Rightarrow> filter_state \<Rightarrow> fault + real list \<times> filter_state" where
  "filter_run [] st = Inr ([], st)"
| "filter_run (v # vs) st =
     (case movingAverageFilter v st of
        Inl e \<Rightarrow> Inl e
      | Inr (avg, st') \<Rightarrow>
          (case filter_run vs st' of
             Inl e \<Rightarrow> Inl e
           | Inr (avgs, st'') \<Rightarrow> Inr (avg # avgs, st'')))"

text \<open>\<^verbatim>\<open>normalize\<close>: the loop body on one \<^verbatim>\<open>point\<close>, and the loop.\<close>

fun normalize_point :: "sample \<Rightarrow> sample" where
  "normalize_point (x, y, z) =
     (let magnitude = fsqrt (fadd (fadd (fmul x x) (fmul y y)) (fmul z z))
      in if 0 < magnitude then (fdiv x magnitude, fdiv y magnitude, fdiv z magnitude)
         else (x, y, z))"

definition normalize :: "sample list \<Rightarrow> sample list" where
  "normalize data = map normalize_point data"

subsection \<open>\<^verbatim>\<open>main.cpp\<close>: the handlers of \<^verbatim>\<open>gyroscope_thread\<close>\<close>

text \<open>
  The globals the thread works on: the two gesture vectors, and what the user sees (the
  last line written to the display, the two LEDs).
\<close>

record session =
  gesture_key :: "sample list"
  unlocking_record :: "sample list"
  display_buffer :: string
  led_status_green :: bool
  led_status_red :: bool

datatype event_flag = KEY_FLAG | UNLOCK_FLAG | ERASE_FLAG

text \<open>\<^verbatim>\<open>if (flag_check & ERASE_FLAG)\<close>\<close>

definition erase_key :: "session \<Rightarrow> session" where
  "erase_key s =
     s\<lparr>gesture_key := [], unlocking_record := [], display_buffer := ''Key Erased.'',
       led_status_green := True, led_status_red := False\<rparr>"

text \<open>
  \<^verbatim>\<open>if (flag_check & KEY_FLAG)\<close>, on the trimmed recording \<^verbatim>\<open>temp_key\<close>: both branches
  assign \<^verbatim>\<open>gesture_key = temp_key\<close>.
\<close>

definition save_key :: "sample list \<Rightarrow> session \<Rightarrow> session" where
  "save_key temp_key s =
     (if gesture_key s = [] then
        s\<lparr>gesture_key := temp_key, display_buffer := ''Key saved.'',
          led_status_red := True, led_status_green := False\<rparr>
      else
        s\<lparr>gesture_key := temp_key, display_buffer := ''New key saved.'',
          led_status_red := True, led_status_green := False\<rparr>)"

text \<open>The loop that counts the axes whose correlation exceeds the threshold.\<close>

definition count_exceeding :: "system_config \<Rightarrow> float32 list \<Rightarrow> nat" where
  "count_exceeding cfg correlationResult =
     fold (\<lambda>c unlock_count.
             if exceeds c (CORRELATION_THRESHOLD cfg) then unlock_count + 1 else unlock_count)
          correlationResult 0"

text \<open>
  The comparison of the unlock branch, on \<^verbatim>\<open>gesture_key\<close> and \<^verbatim>\<open>unlocking_record\<close>:
  both are resized to the shorter length and normalised in place, then correlated. The
  result is \<^verbatim>\<open>correlationResult\<close> and the two vectors as the comparison leaves them.
\<close>

definition align_and_correlate ::
  "sample list \<Rightarrow> sample list \<Rightarrow> float32 list \<times> sample list \<times> sample list" where
  "align_and_correlate key record =
     (let target_size = min (length key) (length record)
      in calculateCorrelationVectors (normalize (resize target_size key))
           (normalize (resize target_size record)))"

text \<open>
  \<^verbatim>\<open>else if (flag_check & UNLOCK_FLAG)\<close>, on the trimmed recording \<^verbatim>\<open>temp_key\<close>, which
  is first copied to \<^verbatim>\<open>unlocking_record\<close>; that vector is cleared at the end of either
  branch.
\<close>

definition unlock_attempt :: "system_config \<Rightarrow> sample list \<Rightarrow> session \<Rightarrow> session" where
  "unlock_attempt cfg temp_key s =
     (if gesture_key s = [] then
        s\<lparr>unlocking_record := [], display_buffer := ''NO KEY SAVED.'',
          led_status_green := True, led_status_red := False\<rparr>
      else
        (case align_and_correlate (gesture_key s) temp_key of
           (correlationResult, key', record') \<Rightarrow>
             if count_exceeding cfg correlationResult = 3 then
               s\<lparr>gesture_key := key', unlocking_record := [],
                 display_buffer := ''UNLOCK: SUCCESS'',
                 led_status_green := True, led_status_red := False\<rparr>
             else
               s\<lparr>gesture_key := key', unlocking_record := [],
                 display_buffer := ''UNLOCK: FAILED'',
                 led_status_green := False, led_status_red := True\<rparr>))"

text \<open>
  One pass of the \<^verbatim>\<open>while (1)\<close> loop of \<^verbatim>\<open>gyroscope_thread\<close>, on the flags that
  \<^verbatim>\<open>wait_any\<close> returned and on the samples the acquisition loop pushed to \<^verbatim>\<open>temp_key\<close>.
\<close>

definition gyroscope_thread_pass ::
  "system_config \<Rightarrow> event_flag set \<Rightarrow> sample list \<Rightarrow> session \<Rightarrow> fault + session" where
  "gyroscope_thread_pass cfg flag_check recorded s =
     (let s1 = (if ERASE_FLAG \<in> flag_check then erase_key s else s) in
      case (if KEY_FLAG \<in> flag_check \<or> UNLOCK_FLAG \<in> flag_check
            then (case trim_gyro_data recorded of
                    Inl e \<Rightarrow> Inl e
                  | Inr t \<Rightarrow> Inr (t, s1\<lparr>display_buffer := ''Finished...''\<rparr>))
            else Inr ([], s1)) of
        Inl e \<Rightarrow> Inl e
      | Inr (temp_key, s2) \<Rightarrow>
          if KEY_FLAG \<in> flag_check then Inr (save_key temp_key s2)
          else if UNLOCK_FLAG \<in> flag_check then Inr (unlock_attempt cfg temp_key s2)
          else Inr s2)"

subsection \<open>Data for closed statements\<close>

text \<open>
  A gesture of four samples, each a unit vector, and the state of the thread in which a
  given key is stored (red LED on, as after a save).
\<close>

definition unit_gesture :: "sample list" where
  "unit_gesture = [(1, 0, 0), (0, 0, 1), (0, 0, 1), (0, 1, 0)]"

definition locked_session :: "sample list \<Rightarrow> session" where
  "locked_session key =
     \<lparr>gesture_key = key, unlocking_record = [], display_buffer = ''Key saved.'',
      led_status_green = False, led_status_red = True\<rparr>"

subsection \<open>Values on a binary grid\<close>

text \<open>
  \<open>on_grid k m\<close> is the number \<open>m * 2^k\<close>. The filter states whose window holds such
  numbers and whose running sum is the number of the integer sum are \<open>grid_state\<close>.
\<close>

definition on_grid :: "int \<Rightarrow> int \<Rightarrow> real" where
  "on_grid k m = of_int m * 2 powi k"

definition grid_state :: "int \<Rightarrow> int list \<Rightarrow> nat \<Rightarrow> filter_state" where
  "grid_state k ws i =
     \<lparr>gyro_buffer = map (on_grid k) ws, gyro_index = i, gyro_sum = on_grid k (sum_list ws)\<rparr>"

subsection \<open>The coefficient the specification names\<close>

text \<open>
  The Pearson correlation coefficient of two sequences of equal length, in exact
  arithmetic, from the sums of \<open>a\<close>, \<open>b\<close>, \<open>a * b\<close>, \<open>a\<^sup>2\<close> and \<open>b\<^sup>2\<close> as the
  specification of \<^verbatim>\<open>correlation\<close> words it. It is not part of the program: it is what
  the result of \<open>correlation\<close> is compared with.
\<close>

definition pearson_coefficient :: "real list \<Rightarrow> real list \<Rightarrow> real" where
  "pearson_coefficient a b =
     (let n = real (length a);
          s_a = sum_list a;
          s_b = sum_list b;
          s_ab = sum_list (map (\<lambda>(x, y). x * y) (zip a b));
          q_a = sum_list (map (\<lambda>x. x * x) a);
          q_b = sum_list (map (\<lambda>y. y * y) b)
      in (s_ab - s_a * s_b / n) / sqrt ((q_a - s_a * s_a / n) * (q_b - s_b * s_b / n)))"

section \<open>Properties\<close>

subsection \<open>Rounding\<close>

text \<open>
  Rounding is determined by the binade of the argument, and a number \<open>m * 2^j\<close> with
  \<open>\<bar>m\<bar> < 2^24\<close> is its own rounding.
\<close>

lemma rne_of_int: "rne (of_int n) = n"
  by (simp add: rne_def)

lemma two_powr_int: "(2::real) powr of_int k = 2 powi k"
  by (simp add: powr_real_of_int')

lemma two_powr_int_Suc: "(2::real) powr (of_int k + 1) = 2 powi (k + 1)"
  using two_powr_int [of "k + 1"] by simp

lemma floor_log2_bounds:
  assumes "x \<noteq> 0"
  shows "2 powi \<lfloor>log 2 \<bar>x\<bar>\<rfloor> \<le> \<bar>x\<bar>" "\<bar>x\<bar> < 2 powi (\<lfloor>log 2 \<bar>x\<bar>\<rfloor> + 1)"
proof -
  have pos: "0 < \<bar>x\<bar>" using assms by simp
  have "(2::real) powr of_int \<lfloor>log 2 \<bar>x\<bar>\<rfloor> \<le> \<bar>x\<bar> \<and> \<bar>x\<bar> < 2 powr of_int (\<lfloor>log 2 \<bar>x\<bar>\<rfloor> + 1)"
    using floor_log_eq_powr_iff [of "\<bar>x\<bar>" 2 "\<lfloor>log 2 \<bar>x\<bar>\<rfloor>"] pos by simp
  then show "2 powi \<lfloor>log 2 \<bar>x\<bar>\<rfloor> \<le> \<bar>x\<bar>" "\<bar>x\<bar> < 2 powi (\<lfloor>log 2 \<bar>x\<bar>\<rfloor> + 1)"
    by (simp_all add: two_powr_int two_powr_int_Suc)
qed

lemma floor_log2_eq:
  assumes "2 powi k \<le> \<bar>x\<bar>" "\<bar>x\<bar> < 2 powi (k + 1)"
  shows "\<lfloor>log 2 \<bar>x\<bar>\<rfloor> = k"
proof -
  have pos: "0 < \<bar>x\<bar>"
    using assms(1) zero_less_power_int [of "2::real" k] by linarith
  have "(2::real) powr of_int k \<le> \<bar>x\<bar> \<and> \<bar>x\<bar> < 2 powr of_int (k + 1)"
    using assms by (simp add: two_powr_int two_powr_int_Suc)
  then show ?thesis
    using floor_log_eq_powr_iff [of "\<bar>x\<bar>" 2 k] pos by simp
qed

lemma f32_binade:
  assumes "2 powi k \<le> \<bar>x\<bar>" "\<bar>x\<bar> < 2 powi (k + 1)"
  shows "f32 x = sgn x * (of_int (rne (\<bar>x\<bar> / 2 powi (k - 23))) * 2 powi (k - 23))"
proof -
  have "0 < \<bar>x\<bar>"
    using assms(1) zero_less_power_int [of "2::real" k] by linarith
  then have "x \<noteq> 0" by simp
  then show ?thesis
    by (simp add: f32_def floor_log2_eq [OF assms])
qed

lemma f32_exact:
  assumes "\<bar>m\<bar> < 2 ^ 24"
  shows "f32 (of_int m * 2 powi j) = of_int m * 2 powi j"
proof (cases "m = 0")
  case True
  then show ?thesis by (simp add: f32_def)
next
  case False
  define x :: real where "x = of_int m * 2 powi j"
  define L where "L = \<lfloor>log 2 \<bar>x\<bar>\<rfloor>"
  have x0: "x \<noteq> 0" using False by (simp add: x_def)
  have absx: "\<bar>x\<bar> = of_int \<bar>m\<bar> * 2 powi j"
    by (simp add: x_def abs_mult)
  have lo: "2 powi L \<le> \<bar>x\<bar>" using floor_log2_bounds(1) [OF x0] by (simp add: L_def)
  have "\<bar>x\<bar> < 2 ^ 24 * 2 powi j"
    unfolding absx using assms by (simp add: of_int_less_iff [symmetric, where ?'a = real] del: of_int_less_iff)
  then have "(2::real) powi L < 2 powi (24 + j)"
    using lo by (simp add: power_int_add)
  then have "L < 24 + j"
    using power_int_increasing [of "24 + j" L "2::real"] by (cases "L < 24 + j") auto
  then have e: "0 \<le> j - (L - 23)" by simp
  define d where "d = nat (j - (L - 23))"
  have jd: "j = (L - 23) + int d" using e by (simp add: d_def)
  have q: "\<bar>x\<bar> / 2 powi (L - 23) = of_int (\<bar>m\<bar> * 2 ^ d)"
    unfolding absx by (subst jd) (simp add: power_int_add)
  have "f32 x = sgn x * (of_int (\<bar>m\<bar> * 2 ^ d) * 2 powi (L - 23))"
    using x0 by (simp add: f32_def L_def [symmetric] q rne_of_int del: of_int_mult of_int_power)
  also have "of_int (\<bar>m\<bar> * 2 ^ d) * 2 powi (L - 23) = \<bar>x\<bar>"
    unfolding absx by (subst jd) (simp add: power_int_add)
  also have "sgn x * \<bar>x\<bar> = x" by (simp add: sgn_mult_abs)
  finally show ?thesis by (simp add: x_def)
qed

lemma f32_of_int: "\<bar>m\<bar> < 2 ^ 24 \<Longrightarrow> f32 (of_int m) = of_int m"
  using f32_exact [of m 0] by simp

lemma f32_0 [simp]: "f32 0 = 0"
  by (simp add: f32_def)

lemma f32_1 [simp]: "f32 1 = 1"
  using f32_of_int [of 1] by simp

lemma f32_numeral [simp]: "(numeral w :: int) < 16777216 \<Longrightarrow> f32 (numeral w) = numeral w"
  using f32_of_int [of "numeral w"] by simp

lemma f32_neg_numeral [simp]: "(numeral w :: int) < 16777216 \<Longrightarrow> f32 (- numeral w) = - numeral w"
  using f32_of_int [of "- numeral w"] by simp

lemma f32_minus [simp]: "f32 (- x) = - f32 x"
  by (simp add: f32_def sgn_minus)

lemma f32_pos: assumes "0 < x" shows "0 < f32 x"
proof -
  define e where "e = \<lfloor>log 2 \<bar>x\<bar>\<rfloor> - 23"
  have x0: "x \<noteq> 0" using assms by simp
  have "2 powi (e + 23) \<le> \<bar>x\<bar>" using floor_log2_bounds(1) [OF x0] by (simp add: e_def)
  then have "2 ^ 23 \<le> \<bar>x\<bar> / 2 powi e"
    by (simp add: power_int_add pos_le_divide_eq mult.commute)
  then have "1 \<le> \<bar>x\<bar> / 2 powi e"
    using one_le_power [of "2::real" 23] by linarith
  then have "1 \<le> rne (\<bar>x\<bar> / 2 powi e)"
    by (auto simp: rne_def Let_def le_floor_iff intro: order_trans)
  then have "0 < real_of_int (rne (\<bar>x\<bar> / 2 powi e)) * 2 powi e"
    by simp
  then show ?thesis using assms by (simp add: f32_def e_def)
qed

lemma threshold_value: "threshold = 10995116 / 1099511627776"
  unfolding threshold_def using f32_binade [of "- 17" "1 / 100000"] by (simp add: rne_def)

lemmas float_ops = fadd_def fsub_def fmul_def fdiv_def fsqrt_def

subsection \<open>Calibration on a constant stream\<close>

lemma max_int16_idem: "max_int16 (max_int16 t v) v = max_int16 t v"
  by (auto simp: max_int16_def word_sless_alt)

lemma calibrate_step_funpow:
  "(calibrate_step r ^^ n) (s, g) =
     (\<lparr>sumX = sumX s + of_nat n * x_raw r, sumY = sumY s + of_nat n * y_raw r,
       sumZ = sumZ s + of_nat n * z_raw r\<rparr>,
      if n = 0 then g
      else g\<lparr>gyro_raw := r,
             x_threshold := max_int16 (x_threshold g) (x_raw r),
             y_threshold := max_int16 (y_threshold g) (y_raw r),
             z_threshold := max_int16 (z_threshold g) (z_raw r)\<rparr>)"
proof (induction n)
  case 0
  show ?case by simp
next
  case (Suc n)
  show ?case
    by (cases "n = 0") (simp_all add: Suc.IH max_int16_idem algebra_simps)
qed

lemma map_constant_sensor:
  "map (constant_sensor v) [0..<n] = replicate n \<lparr>x_raw = v, y_raw = v, z_raw = v\<rparr>"
  by (simp add: constant_sensor_def map_replicate_const)

text \<open>
  What 128 readings of the same value \<open>v\<close> leave behind, from any state \<open>g\<close> of the
  globals: the bias is the 16-bit sum \<open>128 * v\<close> shifted right by 7, and each threshold
  is the larger of its previous value and \<open>v\<close>.
\<close>

lemma CalibrateGyroscope_constant:
  "CalibrateGyroscope (constant_sensor v) g =
     g\<lparr>gyro_raw := \<lparr>x_raw = v, y_raw = v, z_raw = v\<rparr>,
       x_threshold := max_int16 (x_threshold g) v,
       y_threshold := max_int16 (y_threshold g) v,
       z_threshold := max_int16 (z_threshold g) v,
       x_sample := signed_drop_bit 7 (128 * v),
       y_sample := signed_drop_bit 7 (128 * v),
       z_sample := signed_drop_bit 7 (128 * v)\<rparr>"
  by (simp add: CalibrateGyroscope_def map_constant_sensor calibrate_step_funpow)

text \<open>
  The bias that a constant stream \<open>v\<close> yields is \<open>v\<close> with its bits from the ninth on
  replaced by copies of the ninth: it is \<open>v\<close> exactly when \<open>-256 \<le> v < 256\<close>.
\<close>

lemma wrap_shift: "((128 * x + 32768) mod 65536 - 32768) div 128 = (x + 256) mod 512 - 256" for x :: int
proof -
  have "(128 * x + 32768) mod 65536 = (128 * (x + 256)) mod (128 * 512)"
    by (simp add: algebra_simps)
  also have "\<dots> = 128 * ((x + 256) mod 512)"
    by (rule mult_mod_right [symmetric])
  finally have "(128 * x + 32768) mod 65536 - 32768 = 128 * ((x + 256) mod 512 - 256)"
    by (simp add: algebra_simps)
  then show ?thesis by simp
qed

lemma sint_bias: "sint (signed_drop_bit 7 (128 * v)) = (sint v + 256) mod 512 - 256" for v :: int16
proof -
  have "sint (128 * v) = signed_take_bit 15 (sint (128 :: int16) * sint v)"
    by (simp only: sint_word_ariths) simp
  also have "sint (128 :: int16) = 128" by simp
  also have "signed_take_bit 15 (128 * sint v) = (128 * sint v + 32768) mod 65536 - 32768"
    by (simp add: signed_take_bit_eq_take_bit_shift take_bit_eq_mod)
  finally have "sint (signed_drop_bit 7 (128 * v)) = ((128 * sint v + 32768) mod 65536 - 32768) div 128"
    by (simp add: sint_signed_drop_bit_eq drop_bit_eq_div)
  then show ?thesis by (simp only: wrap_shift)
qed

lemma bias_eq_iff:
  "signed_drop_bit 7 (128 * v) = v \<longleftrightarrow> - 256 \<le> sint v \<and> sint v < 256" for v :: int16
proof -
  have "signed_drop_bit 7 (128 * v) = v \<longleftrightarrow> sint (signed_drop_bit 7 (128 * v)) = sint v"
    by (rule word_eq_iff_signed)
  also have "\<dots> \<longleftrightarrow> (sint v + 256) mod 512 - 256 = sint v"
    by (simp only: sint_bias)
  also have "\<dots> \<longleftrightarrow> - 256 \<le> sint v \<and> sint v < 256"
  proof
    assume a: "(sint v + 256) mod 512 - 256 = sint v"
    have "0 \<le> (sint v + 256) mod 512" "(sint v + 256) mod 512 < 512" by simp_all
    with a show "- 256 \<le> sint v \<and> sint v < 256" by linarith
  next
    assume "- 256 \<le> sint v \<and> sint v < 256"
    then have "(sint v + 256) mod 512 = sint v + 256" by (intro mod_pos_pos_trivial) simp_all
    then show "(sint v + 256) mod 512 - 256 = sint v" by simp
  qed
  finally show ?thesis .
qed

text \<open>
  C7. Calibration on a stream of 128 readings that all equal \<open>v\<close> is claimed to give
  bias \<open>v\<close> and threshold \<open>v\<close> on each axis, for every 16-bit \<open>v\<close> and every previous
  state. At \<open>v = 256\<close>, from the initial globals, the 16-bit accumulator wraps to
  \<open>-32768\<close> and the bias of each axis is \<open>-256\<close>; at \<open>v = -1\<close>, from the initial globals,
  the threshold stays at its initial value 0, since nothing seeds it with the least
  16-bit value.
\<close>

theorem calibrate_constant_stream_wraps:
  "x_sample (CalibrateGyroscope (constant_sensor 256) gyro_globals_init) = - 256 \<and>
   y_sample (CalibrateGyroscope (constant_sensor 256) gyro_globals_init) = - 256 \<and>
   z_sample (CalibrateGyroscope (constant_sensor 256) gyro_globals_init) = - 256 \<and>
   x_threshold (CalibrateGyroscope (constant_sensor (- 1)) gyro_globals_init) = 0"
  by (simp add: CalibrateGyroscope_constant gyro_globals_init_def max_int16_def word_sless_alt)

subsection \<open>Initialisation with an unrecognised full-scale selector\<close>

text \<open>
  C8, as claimed: an unrecognised \<^verbatim>\<open>conf4\<close> is reported as a configuration failure and
  the sensitivity is never silently given a usable value. With the selector \<open>0xFF\<close>,
  which is none of the four cases, and the globals as an earlier initialisation for
  500 dps left them, \<open>InitiateGyroscope\<close> ends in the very state that calibration alone
  produces, with the sensitivity of the 500 dps range still in place.
\<close>

theorem InitiateGyroscope_unrecognized_is_silent:
  "InitiateGyroscope datasheet_config \<lparr>conf1 = 0, conf3 = 0, conf4 = 0xFF\<rparr> (constant_sensor 0)
     (gyro_globals_init\<lparr>sensitivity := SENSITIVITY_500 datasheet_config\<rparr>) =
   CalibrateGyroscope (constant_sensor 0)
     (gyro_globals_init\<lparr>sensitivity := SENSITIVITY_500 datasheet_config\<rparr>) \<and>
   sensitivity
     (InitiateGyroscope datasheet_config \<lparr>conf1 = 0, conf3 = 0, conf4 = 0xFF\<rparr> (constant_sensor 0)
        (gyro_globals_init\<lparr>sensitivity := SENSITIVITY_500 datasheet_config\<rparr>)) = 175 / 10000"
  by (simp add: InitiateGyroscope_def datasheet_config_def CalibrateGyroscope_constant)

text \<open>
  C8, amended: for a \<^verbatim>\<open>conf4\<close> that is none of the four recognised selectors,
  \<open>InitiateGyroscope\<close> does what \<open>CalibrateGyroscope\<close> does and nothing else: the
  sensitivity keeps the value it had before the call, calibration runs, and no failure
  is reported.
\<close>

theorem InitiateGyroscope_unrecognized:
  "conf4 p \<noteq> FULL_SCALE_245 cfg \<Longrightarrow> conf4 p \<noteq> FULL_SCALE_500 cfg \<Longrightarrow>
   conf4 p \<noteq> FULL_SCALE_2000 cfg \<Longrightarrow> conf4 p \<noteq> FULL_SCALE_2000_ALT cfg \<Longrightarrow>
   InitiateGyroscope cfg p sensor g = CalibrateGyroscope sensor g"
  by (simp add: InitiateGyroscope_def)

theorem InitiateGyroscope_unrecognized_witness:
  "InitiateGyroscope datasheet_config \<lparr>conf1 = 0, conf3 = 0, conf4 = 0x40\<rparr> (constant_sensor 3)
     gyro_globals_init =
   CalibrateGyroscope (constant_sensor 3) gyro_globals_init"
  using InitiateGyroscope_unrecognized
    [of "\<lparr>conf1 = 0, conf3 = 0, conf4 = 0x40\<rparr>" datasheet_config "constant_sensor 3" gyro_globals_init]
  by (simp add: datasheet_config_def)

subsection \<open>Correlation at concrete inputs\<close>

text \<open>
  C1. \<^verbatim>\<open>correlation(a, a)\<close> is claimed to be 1, the Pearson coefficient, when \<open>a\<close> has
  nonzero variance. The loop assigns \<^verbatim>\<open>sum_a += a[i] - sum_a\<close>, which leaves the last
  element in \<^verbatim>\<open>sum_a\<close>, not the sum. For \<open>a = [1, 2]\<close> every intermediate value is a small
  integer, no operation rounds, and the result is 0, where the coefficient is 1.
\<close>

theorem correlation_self_is_not_one:
  "correlation [1, 2] [1, 2] = Finite 0 \<and> pearson_coefficient [1, 2] [1, 2] = 1"
  by (simp add: correlation_def pearson_coefficient_def float_ops Let_def real_sqrt_unique)

text \<open>
  C3. \<^verbatim>\<open>correlation\<close> is claimed to return NaN when a sequence has zero variance. For the
  constant sequences \<open>a = b = [2, 2]\<close> the numerator is 2 and the denominator is 6, all
  intermediate values are small integers, and the result is the \<^verbatim>\<open>float\<close> nearest to
  \<open>1/3\<close>, not NaN.
\<close>

theorem correlation_constant_is_not_nan:
  "correlation [2, 2] [2, 2] = Finite (f32 (1 / 3))"
  by (simp add: correlation_def float_ops Let_def real_sqrt_unique)

subsection \<open>Trimming\<close>

text \<open>
  The two scans: the forward scan runs into \<^verbatim>\<open>data.end()\<close> when no sample from \<open>ptr\<close>
  on is active, and otherwise stops at the first active one; the backward scan stops at
  the last active one.
\<close>

lemma scan_forward_all_below:
  "(\<And>j. ptr \<le> j \<Longrightarrow> j < length data \<Longrightarrow> below_threshold (data ! j)) \<Longrightarrow>
   scan_forward data ptr = Inl OutOfBounds"
proof (induction data ptr rule: scan_forward.induct)
  case (1 data ptr)
  show ?case
  proof (cases "length data \<le> ptr")
    case True
    then show ?thesis by simp
  next
    case False
    then have b: "below_threshold (data ! ptr)" using "1.prems" by simp
    have "scan_forward data (ptr + 1) = Inl OutOfBounds"
      using "1.IH" [OF False b] "1.prems" by simp
    with False b show ?thesis by simp
  qed
qed

lemma scan_forward_Inr:
  "scan_forward data ptr = Inr l \<Longrightarrow>
   ptr \<le> l \<and> l < length data \<and> \<not> below_threshold (data ! l) \<and>
   (\<forall>j. ptr \<le> j \<and> j < l \<longrightarrow> below_threshold (data ! j))"
proof (induction data ptr rule: scan_forward.induct)
  case (1 data ptr)
  show ?case
  proof (cases "length data \<le> ptr")
    case True
    with "1.prems" show ?thesis by simp
  next
    case False
    show ?thesis
    proof (cases "below_threshold (data ! ptr)")
      case True
      with False "1.prems" have "scan_forward data (ptr + 1) = Inr l" by simp
      from "1.IH" [OF False True this]
      have ih: "ptr + 1 \<le> l" "l < length data" "\<not> below_threshold (data ! l)"
        "\<And>j. ptr + 1 \<le> j \<Longrightarrow> j < l \<Longrightarrow> below_threshold (data ! j)"
        by auto
      have "below_threshold (data ! j)" if "ptr \<le> j" "j < l" for j
        using that ih(4) [of j] True by (cases "j = ptr") auto
      with ih show ?thesis by auto
    next
      case b: False
      with False "1.prems" have "l = ptr" by simp
      with False b show ?thesis by auto
    qed
  qed
qed

lemma scan_forward_first:
  "ptr \<le> l \<Longrightarrow> l < length data \<Longrightarrow> \<not> below_threshold (data ! l) \<Longrightarrow>
   (\<And>j. ptr \<le> j \<Longrightarrow> j < l \<Longrightarrow> below_threshold (data ! j)) \<Longrightarrow>
   scan_forward data ptr = Inr l"
proof (induction data ptr rule: scan_forward.induct)
  case (1 data ptr)
  show ?case
  proof (cases "ptr = l")
    case True
    with "1.prems" show ?thesis by simp
  next
    case False
    with "1.prems" have lt: "ptr < l" by simp
    then have nb: "\<not> length data \<le> ptr" using "1.prems" by simp
    have b: "below_threshold (data ! ptr)" using "1.prems"(4) lt by simp
    have "scan_forward data (ptr + 1) = Inr l"
      using "1.IH" [OF nb b] "1.prems" lt by simp
    with nb b show ?thesis by simp
  qed
qed

lemma scan_backward_last:
  "r \<le> ptr \<Longrightarrow> ptr < length data \<Longrightarrow> \<not> below_threshold (data ! r) \<Longrightarrow>
   (\<And>j. r < j \<Longrightarrow> j \<le> ptr \<Longrightarrow> below_threshold (data ! j)) \<Longrightarrow>
   scan_backward data ptr = Inr r"
proof (induction data ptr rule: scan_backward.induct)
  case (1 data ptr)
  show ?case
  proof (cases "ptr = r")
    case True
    with "1.prems" show ?thesis by simp
  next
    case False
    with "1.prems" have lt: "r < ptr" by simp
    have nb: "\<not> length data \<le> ptr" using "1.prems" by simp
    have b: "below_threshold (data ! ptr)" using "1.prems"(4) lt by simp
    have p0: "ptr \<noteq> 0" using lt by simp
    have "scan_backward data (ptr - 1) = Inr r"
      using "1.IH" [OF nb b p0] "1.prems" lt by simp
    with nb b p0 show ?thesis by simp
  qed
qed

lemma shift_active_result:
  "rp < lp \<Longrightarrow> lp \<le> r + 1 \<Longrightarrow> r < length data \<Longrightarrow>
   (case shift_active data rp lp r of
      (data', rp', lp') \<Rightarrow>
        rp' = rp + (r + 1 - lp) \<and> lp' = r + 1 \<and> length data' = length data \<and>
        (\<forall>j. j < rp \<longrightarrow> data' ! j = data ! j) \<and>
        (\<forall>j. rp \<le> j \<and> j < rp + (r + 1 - lp) \<longrightarrow> data' ! j = data ! (j + (lp - rp))))"
proof (induction data rp lp r rule: shift_active.induct)
  case (1 data rp lp r)
  show ?case
  proof (cases "lp \<le> r")
    case False
    with "1.prems" have "lp = r + 1" by simp
    with "1.prems" show ?thesis by simp
  next
    case True
    with "1.prems" have c: "rp \<noteq> lp \<and> lp \<le> r" by simp
    define data2 where "data2 = data[rp := data ! lp]"
    obtain data' rp' lp' where res: "shift_active data2 (rp + 1) (lp + 1) r = (data', rp', lp')"
      by (cases "shift_active data2 (rp + 1) (lp + 1) r") auto
    have ih: "rp' = rp + 1 + (r + 1 - (lp + 1)) \<and> lp' = r + 1 \<and> length data' = length data2 \<and>
        (\<forall>j. j < rp + 1 \<longrightarrow> data' ! j = data2 ! j) \<and>
        (\<forall>j. rp + 1 \<le> j \<and> j < rp + 1 + (r + 1 - (lp + 1)) \<longrightarrow> data' ! j = data2 ! (j + (lp + 1 - (rp + 1))))"
      using "1.IH" [OF c] "1.prems" True res by (simp add: data2_def)
    have unf: "shift_active data rp lp r = (data', rp', lp')"
      using c res by (simp add: data2_def)
    have rplen: "rp < length data" using "1.prems" True by simp
    have a: "\<forall>j. j < rp \<longrightarrow> data' ! j = data ! j"
      using ih by (auto simp: data2_def)
    have b: "\<forall>j. rp \<le> j \<and> j < rp + (r + 1 - lp) \<longrightarrow> data' ! j = data ! (j + (lp - rp))"
    proof (intro allI impI)
      fix j assume j: "rp \<le> j \<and> j < rp + (r + 1 - lp)"
      show "data' ! j = data ! (j + (lp - rp))"
      proof (cases "j = rp")
        case True
        then have "data' ! j = data2 ! rp" using ih by simp
        also have "\<dots> = data ! lp" using rplen by (simp add: data2_def)
        finally show ?thesis using True "1.prems" by simp
      next
        case False
        with j have j1: "rp + 1 \<le> j \<and> j < rp + 1 + (r + 1 - (lp + 1))" using True by arith
        then have "data' ! j = data2 ! (j + (lp + 1 - (rp + 1)))" using ih by simp
        also have "\<dots> = data ! (j + (lp - rp))"
        proof -
          have "j + (lp + 1 - (rp + 1)) = j + (lp - rp)" by simp
          moreover have "j + (lp - rp) \<noteq> rp" using j1 "1.prems" by arith
          ultimately show ?thesis by (simp add: data2_def)
        qed
        finally show ?thesis .
      qed
    qed
    show ?thesis
      unfolding unf using ih a b True by (simp add: data2_def)
  qed
qed


lemma trim_gyro_data_no_active:
  assumes "list_all below_threshold data"
  shows "trim_gyro_data data = Inl OutOfBounds"
proof -
  have "scan_forward data 0 = Inl OutOfBounds"
    using assms by (intro scan_forward_all_below) (simp add: list_all_length)
  then show ?thesis by (simp add: trim_gyro_data_def)
qed

lemma trim_gyro_data_active:
  assumes lr: "l \<le> r" "r < length data"
    and act: "\<not> below_threshold (data ! l)" "\<not> below_threshold (data ! r)"
    and before: "\<And>j. j < l \<Longrightarrow> below_threshold (data ! j)"
    and after: "\<And>j. r < j \<Longrightarrow> j < length data \<Longrightarrow> below_threshold (data ! j)"
  shows "trim_gyro_data data = Inr (take (r - l + 1) (drop l data))"
proof -
  have f: "scan_forward data 0 = Inr l"
    using lr act before by (intro scan_forward_first) auto
  have b: "scan_backward data (length data - 1) = Inr r"
    using lr act after by (intro scan_backward_last) auto
  have ne: "l \<noteq> length data" using lr by simp
  show ?thesis
  proof (cases "l = 0")
    case True
    then show ?thesis
      using f b ne by (simp add: trim_gyro_data_def)
  next
    case False
    obtain data' rp' lp' where res: "shift_active data 0 l r = (data', rp', lp')"
      by (cases "shift_active data 0 l r") auto
    have "0 < l" "l \<le> r + 1" using False lr by simp_all
    from shift_active_result [OF this lr(2)] res
    have p: "rp' = r + 1 - l" "lp' = r + 1" "length data' = length data"
      "\<And>j. j < r + 1 - l \<Longrightarrow> data' ! j = data ! (j + l)"
      by auto
    have "take rp' data' = take (r - l + 1) (drop l data)"
    proof (rule nth_equalityI)
      show "length (take rp' data') = length (take (r - l + 1) (drop l data))"
        using p lr by simp
    next
      fix i assume "i < length (take rp' data')"
      then have i: "i < r + 1 - l" using p by simp
      then show "take rp' data' ! i = take (r - l + 1) (drop l data) ! i"
        using p lr by (simp add: add.commute)
    qed
    then show ?thesis
      using f b ne res p by (simp add: trim_gyro_data_def)
  qed
qed

lemma first_last_active:
  assumes "\<not> list_all below_threshold data"
  shows "\<exists>l r. l \<le> r \<and> r < length data \<and>
           \<not> below_threshold (data ! l) \<and> \<not> below_threshold (data ! r) \<and>
           (\<forall>j<l. below_threshold (data ! j)) \<and>
           (\<forall>j. r < j \<and> j < length data \<longrightarrow> below_threshold (data ! j))"
proof -
  define A where "A j \<longleftrightarrow> j < length data \<and> \<not> below_threshold (data ! j)" for j
  from assms obtain k where k: "A k" by (auto simp: list_all_length A_def)
  define l where "l = (LEAST j. A j)"
  define r where "r = (GREATEST j. A j)"
  have bound: "\<And>j. A j \<Longrightarrow> j \<le> length data" by (simp add: A_def)
  have Al: "A l" unfolding l_def using k by (rule LeastI)
  have lmin: "\<And>j. A j \<Longrightarrow> l \<le> j" unfolding l_def by (rule Least_le)
  have Ar: "A r" unfolding r_def using k bound by (rule GreatestI_nat)
  have rmax: "j \<le> r" if "A j" for j
    unfolding r_def using that bound by (rule Greatest_le_nat)
  have "l \<le> r" using lmin [OF Ar] .
  moreover have "\<forall>j<l. below_threshold (data ! j)"
  proof (intro allI impI)
    fix j assume "j < l"
    then have "\<not> A j" using lmin [of j] by auto
    moreover have "j < length data" using \<open>j < l\<close> Al by (simp add: A_def)
    ultimately show "below_threshold (data ! j)" by (simp add: A_def)
  qed
  moreover have "\<forall>j. r < j \<and> j < length data \<longrightarrow> below_threshold (data ! j)"
  proof (intro allI impI)
    fix j assume j: "r < j \<and> j < length data"
    then have "\<not> A j" using rmax [of j] by auto
    then show "below_threshold (data ! j)" using j by (simp add: A_def)
  qed
  ultimately show ?thesis using Al Ar by (auto simp: A_def)
qed

lemma trim_gyro_data_Inr:
  assumes "trim_gyro_data data = Inr t"
  shows "\<exists>l r. l \<le> r \<and> r < length data \<and>
           \<not> below_threshold (data ! l) \<and> \<not> below_threshold (data ! r) \<and>
           (\<forall>j<l. below_threshold (data ! j)) \<and>
           (\<forall>j. r < j \<and> j < length data \<longrightarrow> below_threshold (data ! j)) \<and>
           t = take (r - l + 1) (drop l data)"
proof -
  have "\<not> list_all below_threshold data"
    using assms trim_gyro_data_no_active [of data] by auto
  from first_last_active [OF this] obtain l r where
    p: "l \<le> r" "r < length data" "\<not> below_threshold (data ! l)" "\<not> below_threshold (data ! r)"
      "\<And>j. j < l \<Longrightarrow> below_threshold (data ! j)"
      "\<And>j. r < j \<Longrightarrow> j < length data \<Longrightarrow> below_threshold (data ! j)"
    by blast
  from trim_gyro_data_active [OF p] assms have "t = take (r - l + 1) (drop l data)" by simp
  with p show ?thesis by blast
qed

lemma trim_gyro_data_idempotent:
  assumes "trim_gyro_data data = Inr t"
  shows "trim_gyro_data t = Inr t"
proof -
  from trim_gyro_data_Inr [OF assms] obtain l r where
    p: "l \<le> r" "r < length data" "\<not> below_threshold (data ! l)" "\<not> below_threshold (data ! r)"
      "t = take (r - l + 1) (drop l data)"
    by blast
  have len: "length t = r - l + 1" using p by simp
  have t0: "t ! 0 = data ! l" using p by simp
  have tr: "t ! (r - l) = data ! r" using p by simp
  have "trim_gyro_data t = Inr (take (r - l - 0 + 1) (drop 0 t))"
    using len t0 tr p by (intro trim_gyro_data_active) auto
  then show ?thesis using len by simp
qed

text \<open>
  C4. On a sequence with no active sample \<^verbatim>\<open>trim_gyro_data\<close> is claimed to access only
  elements inside the sequence and to leave it empty. On the empty sequence the first
  loop dereferences \<^verbatim>\<open>data.begin()\<close>, which is \<^verbatim>\<open>data.end()\<close>. (By
  \<open>trim_gyro_data_no_active\<close> the same holds for every sequence with no active sample,
  and by \<open>trim_gyro_data_active\<close> a sequence with an active sample is cut to the
  \<open>r - l + 1\<close> samples from its first active sample \<open>l\<close> to its last \<open>r\<close>.)
\<close>

theorem trim_gyro_data_empty_out_of_bounds:
  "trim_gyro_data [] = Inl OutOfBounds"
  by (simp add: trim_gyro_data_def)

text \<open>
  C9. Trimming is claimed to be idempotent on every sequence. On the sequence of one
  sample at rest the first call already reads past the end, so there is no trimmed
  sequence to trim again. (By \<open>trim_gyro_data_idempotent\<close>, whenever the first call
  returns a sequence, the second returns the same.)
\<close>

theorem trim_gyro_data_at_rest_out_of_bounds:
  "trim_gyro_data [(0, 0, 0)] = Inl OutOfBounds"
  by (simp add: trim_gyro_data_def threshold_value)

subsection \<open>The unlock decision\<close>

lemma resize_take: "n \<le> length v \<Longrightarrow> resize n v = take n v"
  by (simp add: resize_def)

lemma length_normalize: "length (normalize v) = length v"
  by (simp add: normalize_def)

lemma calculateCorrelationVectors_same_length:
  "length vec1 = length vec2 \<Longrightarrow>
   calculateCorrelationVectors vec1 vec2 =
     ([correlation (map (axis 0) vec1) (map (axis 0) vec2),
       correlation (map (axis 1) vec1) (map (axis 1) vec2),
       correlation (map (axis 2) vec1) (map (axis 2) vec2)], vec1, vec2)"
  by (simp add: calculateCorrelationVectors_def)

text \<open>
  The comparison cuts both vectors to the shorter length, so
  \<^verbatim>\<open>calculateCorrelationVectors\<close> never resizes them again.
\<close>

lemma align_and_correlate_eq:
  "align_and_correlate key record =
     (let k = normalize (take (min (length key) (length record)) key);
          r = normalize (take (min (length key) (length record)) record)
      in ([correlation (map (axis 0) k) (map (axis 0) r),
           correlation (map (axis 1) k) (map (axis 1) r),
           correlation (map (axis 2) k) (map (axis 2) r)], k, r))"
  by (simp add: align_and_correlate_def Let_def resize_take
      calculateCorrelationVectors_same_length length_normalize)

lemma count_exceeding_3:
  "count_exceeding cfg [cx, cy, cz] = 3 \<longleftrightarrow>
     exceeds cx (CORRELATION_THRESHOLD cfg) \<and> exceeds cy (CORRELATION_THRESHOLD cfg) \<and>
     exceeds cz (CORRELATION_THRESHOLD cfg)"
  by (simp add: count_exceeding_def)

lemma f32_quarter [simp]: "f32 (1 / 4) = 1 / 4"
  using f32_exact [of 1 "- 2"] by simp

lemma f32_three_quarters [simp]: "f32 (3 / 4) = 3 / 4"
  using f32_exact [of 3 "- 2"] by simp

lemma f32_nine_sixteenths [simp]: "f32 (9 / 16) = 9 / 16"
  using f32_exact [of 9 "- 4"] by simp

lemma normalize_point_unit [simp]:
  "normalize_point (1, 0, 0) = (1, 0, 0)" "normalize_point (0, 1, 0) = (0, 1, 0)"
  "normalize_point (0, 0, 1) = (0, 0, 1)" "normalize_point (0, 0, 0) = (0, 0, 0)"
  by (simp_all add: float_ops)

lemma normalize_point_two [simp]:
  "normalize_point (2, 0, 0) = (1, 0, 0)" "normalize_point (0, 2, 0) = (0, 1, 0)"
  by (simp_all add: float_ops)

text \<open>The three correlations of \<open>unit_gesture\<close> with itself; no operation rounds.\<close>

lemma unit_gesture_correlations:
  "fst (align_and_correlate unit_gesture unit_gesture) = [Finite 2, Finite 1, Finite 1]"
  by (simp add: align_and_correlate_eq unit_gesture_def normalize_def correlation_def
      float_ops Let_def real_sqrt_divide)

text \<open>
  C2. When a key is stored, the comparison yields three correlations \<open>cx\<close>, \<open>cy\<close>, \<open>cz\<close>,
  and the attempt ends with \<^verbatim>\<open>UNLOCK: SUCCESS\<close> on the display and the green LED on if and
  only if each of the three strictly exceeds \<^verbatim>\<open>CORRELATION_THRESHOLD\<close>; otherwise it ends
  with \<^verbatim>\<open>UNLOCK: FAILED\<close>. A correlation that is NaN exceeds nothing, so one NaN axis
  makes the attempt fail.
\<close>

theorem unlock_succeeds_iff_all_axes_exceed:
  "gesture_key s \<noteq> [] \<Longrightarrow>
   (\<exists>cx cy cz. fst (align_and_correlate (gesture_key s) temp_key) = [cx, cy, cz] \<and>
      display_buffer (unlock_attempt cfg temp_key s) =
        (if exceeds cx (CORRELATION_THRESHOLD cfg) \<and> exceeds cy (CORRELATION_THRESHOLD cfg) \<and>
            exceeds cz (CORRELATION_THRESHOLD cfg)
         then ''UNLOCK: SUCCESS'' else ''UNLOCK: FAILED'') \<and>
      led_status_green (unlock_attempt cfg temp_key s) =
        (exceeds cx (CORRELATION_THRESHOLD cfg) \<and> exceeds cy (CORRELATION_THRESHOLD cfg) \<and>
         exceeds cz (CORRELATION_THRESHOLD cfg)) \<and>
      (cx = NaN \<or> cy = NaN \<or> cz = NaN \<longrightarrow>
         display_buffer (unlock_attempt cfg temp_key s) = ''UNLOCK: FAILED''))"
  by (auto simp: unlock_attempt_def align_and_correlate_eq Let_def count_exceeding_3)

theorem unlock_succeeds_iff_all_axes_exceed_witness:
  "gesture_key (locked_session unit_gesture) \<noteq> [] \<and>
   display_buffer (unlock_attempt datasheet_config unit_gesture (locked_session unit_gesture)) =
     ''UNLOCK: SUCCESS''"
proof -
  have key: "gesture_key (locked_session unit_gesture) \<noteq> []"
    by (simp add: locked_session_def unit_gesture_def)
  from unlock_succeeds_iff_all_axes_exceed [OF key, of unit_gesture datasheet_config]
  obtain cx cy cz where
    c: "fst (align_and_correlate (gesture_key (locked_session unit_gesture)) unit_gesture) = [cx, cy, cz]"
    and d: "display_buffer (unlock_attempt datasheet_config unit_gesture (locked_session unit_gesture)) =
        (if exceeds cx (CORRELATION_THRESHOLD datasheet_config) \<and>
            exceeds cy (CORRELATION_THRESHOLD datasheet_config) \<and>
            exceeds cz (CORRELATION_THRESHOLD datasheet_config)
         then ''UNLOCK: SUCCESS'' else ''UNLOCK: FAILED'')"
    by blast
  have g: "gesture_key (locked_session unit_gesture) = unit_gesture"
    by (simp add: locked_session_def)
  from c have "fst (align_and_correlate unit_gesture unit_gesture) = [cx, cy, cz]"
    unfolding g .
  then have "[Finite 2, Finite 1, Finite 1] = [cx, cy, cz]"
    unfolding unit_gesture_correlations .
  then have "cx = Finite 2 \<and> cy = Finite 1 \<and> cz = Finite 1"
    by auto
  with d key show ?thesis by (simp add: datasheet_config_def)
qed

subsection \<open>A record request on a recording at rest\<close>

text \<open>
  The trimmer never returns an empty sequence: what it returns starts and ends with an
  active sample. A recording with no active sample does not reach the save block: the
  pass ends in the out-of-bounds read of the trimmer.
\<close>

lemma trim_gyro_data_Inr_nonempty:
  assumes "trim_gyro_data data = Inr t"
  shows "t \<noteq> []"
proof -
  from trim_gyro_data_Inr [OF assms] obtain l r where
    "l \<le> r" "r < length data" "t = take (r - l + 1) (drop l data)"
    by blast
  then have "length t = r - l + 1" by simp
  then show ?thesis by auto
qed

lemma record_pass_at_rest_faults:
  "KEY_FLAG \<in> flag_check \<Longrightarrow> list_all below_threshold recorded \<Longrightarrow>
   gyroscope_thread_pass cfg flag_check recorded s = Inl OutOfBounds"
  by (simp add: gyroscope_thread_pass_def trim_gyro_data_no_active Let_def)

text \<open>
  What the trimmer returns for the recording, a record request stores as the key,
  replacing any previous one; the save block has no test on the sequence it stores.
\<close>

lemma record_pass_stores_trimmed:
  "KEY_FLAG \<in> flag_check \<Longrightarrow> trim_gyro_data recorded = Inr t \<Longrightarrow>
   (\<exists>s'. gyroscope_thread_pass cfg flag_check recorded s = Inr s' \<and> gesture_key s' = t)"
  by (auto simp: gyroscope_thread_pass_def save_key_def Let_def)

text \<open>
  C5. A record request on a recording that trims to the empty sequence is claimed to be
  rejected as no usable gesture, the stored key kept and no out-of-range access made.
  On a recording of three samples at rest, with a key stored and the record flag set,
  the pass does not end with a rejection: it ends in the read past the end of the
  vector that the trimmer makes before its test for \<^verbatim>\<open>data.end()\<close>.
\<close>

theorem record_request_at_rest_out_of_bounds:
  "gyroscope_thread_pass datasheet_config {KEY_FLAG} [(0, 0, 0), (0, 0, 0), (0, 0, 0)]
     (locked_session unit_gesture) = Inl OutOfBounds"
  by (simp add: gyroscope_thread_pass_def trim_gyro_data_def threshold_value)

subsection \<open>What an unlock attempt does to the stored key\<close>

text \<open>
  C6, as claimed: an unlock attempt leaves the stored key as it was. With the key
  \<open>[(2, 0, 0), (0, 1, 0)]\<close> and an attempt of one sample, the key after the comparison
  is \<open>[(1, 0, 0)]\<close>: one sample shorter, and its first sample scaled to length 1.
\<close>

theorem unlock_changes_stored_key:
  "gesture_key (locked_session [(2, 0, 0), (0, 1, 0)]) = [(2, 0, 0), (0, 1, 0)] \<and>
   gesture_key (unlock_attempt datasheet_config [(1, 0, 0)] (locked_session [(2, 0, 0), (0, 1, 0)])) =
     [(1, 0, 0)]"
  by (simp add: unlock_attempt_def align_and_correlate_eq Let_def locked_session_def normalize_def
      float_ops)

text \<open>
  C6, amended: besides a save and an erase, an unlock attempt against a stored key
  changes the key: after the comparison the stored key is its prefix of the shorter of
  the two lengths (key and attempt), with every sample normalised.
\<close>

theorem unlock_rewrites_stored_key:
  "gesture_key s \<noteq> [] \<Longrightarrow>
   gesture_key (unlock_attempt cfg temp_key s) =
     normalize (take (min (length (gesture_key s)) (length temp_key)) (gesture_key s))"
  by (simp add: unlock_attempt_def align_and_correlate_eq Let_def)

theorem unlock_rewrites_stored_key_witness:
  "gesture_key (locked_session [(0, 2, 0), (1, 0, 0), (0, 0, 1)]) \<noteq> [] \<and>
   gesture_key (unlock_attempt datasheet_config [(0, 1, 0), (1, 0, 0)]
                  (locked_session [(0, 2, 0), (1, 0, 0), (0, 0, 1)])) =
     [(0, 1, 0), (1, 0, 0)]"
proof -
  have key: "gesture_key (locked_session [(0, 2, 0), (1, 0, 0), (0, 0, 1)]) \<noteq> []"
    by (simp add: locked_session_def)
  from unlock_rewrites_stored_key [OF key, of datasheet_config "[(0, 1, 0), (1, 0, 0)]"] key
  show ?thesis by (simp add: locked_session_def normalize_def float_ops)
qed

subsection \<open>The moving-average filter\<close>

text \<open>
  On numbers \<open>m * 2^k\<close> with \<open>\<bar>m\<bar> \<le> 2^21\<close> the filter does not round: the window holds
  five of them, so the running sum and the two intermediate sums of a call are numbers
  \<open>n * 2^k\<close> with \<open>\<bar>n\<bar> < 2^24\<close>.
\<close>

lemma f32_on_grid: "\<bar>m\<bar> < 2 ^ 24 \<Longrightarrow> f32 (on_grid k m) = on_grid k m"
  by (simp add: on_grid_def f32_exact)

lemma on_grid_add: "on_grid k a + on_grid k b = on_grid k (a + b)"
  by (simp add: on_grid_def algebra_simps)

lemma on_grid_diff: "on_grid k a - on_grid k b = on_grid k (a - b)"
  by (simp add: on_grid_def algebra_simps)

lemma on_grid_0 [simp]: "on_grid k 0 = 0"
  by (simp add: on_grid_def)

lemma sum_list_on_grid: "sum_list (map (on_grid k) ws) = on_grid k (sum_list ws)"
  by (induction ws) (simp_all add: on_grid_add)

lemma abs_sum_list_le:
  fixes ws :: "int list"
  shows "(\<forall>w\<in>set ws. \<bar>w\<bar> \<le> B) \<Longrightarrow> \<bar>sum_list ws\<bar> \<le> int (length ws) * B"
proof (induction ws)
  case Nil
  show ?case by simp
next
  case (Cons w ws)
  then have "\<bar>sum_list ws\<bar> \<le> int (length ws) * B" "\<bar>w\<bar> \<le> B" by simp_all
  then show ?case by (simp add: algebra_simps)
qed

lemma sum_list_update_int:
  fixes ws :: "int list"
  shows "i < length ws \<Longrightarrow> sum_list (ws[i := m]) = sum_list ws - ws ! i + m"
proof (induction ws arbitrary: i)
  case Nil
  then show ?case by simp
next
  case (Cons w ws)
  then show ?case by (cases i) simp_all
qed

lemma movingAverageFilter_grid:
  assumes len: "length ws = 5" and i: "i < 5"
    and ws: "\<forall>w\<in>set ws. \<bar>w\<bar> \<le> 2 ^ 21" and m: "\<bar>m\<bar> \<le> 2 ^ 21"
  shows "movingAverageFilter (on_grid k m) (grid_state k ws i) =
           Inr (fdiv (on_grid k (sum_list (ws[i := m]))) 5, grid_state k (ws[i := m]) ((i + 1) mod 5))"
proof -
  have S: "\<bar>sum_list ws\<bar> \<le> 5 * 2 ^ 21"
    using abs_sum_list_le [of ws "2 ^ 21"] ws len by simp
  have wi: "\<bar>ws ! i\<bar> \<le> 2 ^ 21" using ws len i by simp
  have b1: "\<bar>sum_list ws - ws ! i\<bar> < 2 ^ 24" using S wi by simp
  have b2: "\<bar>sum_list ws - ws ! i + m\<bar> < 2 ^ 24" using S wi m by simp
  have s1: "fsub (on_grid k (sum_list ws)) (on_grid k (ws ! i)) = on_grid k (sum_list ws - ws ! i)"
    by (simp add: fsub_def on_grid_diff f32_on_grid [OF b1])
  have s2: "fadd (on_grid k (sum_list ws - ws ! i)) (on_grid k m) = on_grid k (sum_list ws - ws ! i + m)"
    by (simp add: fadd_def on_grid_add f32_on_grid [OF b2])
  have upd: "sum_list (ws[i := m]) = sum_list ws - ws ! i + m"
    using len i by (simp add: sum_list_update_int)
  show ?thesis
    using len i
    by (simp add: movingAverageFilter_def grid_state_def Let_def WINDOW_SIZE_def s1 s2 upd map_update)
qed

lemma filter_run_grid:
  assumes "\<forall>m\<in>set ms. \<bar>m\<bar> \<le> 2 ^ 21" "length ws = 5" "i < 5" "\<forall>w\<in>set ws. \<bar>w\<bar> \<le> 2 ^ 21"
  shows "\<exists>avgs ws' i'. filter_run (map (on_grid k) ms) (grid_state k ws i) = Inr (avgs, grid_state k ws' i') \<and>
           length ws' = 5 \<and> i' < 5 \<and> (\<forall>w\<in>set ws'. \<bar>w\<bar> \<le> 2 ^ 21)"
  using assms
proof (induction ms arbitrary: ws i)
  case Nil
  then show ?case by auto
next
  case (Cons m ms)
  have m: "\<bar>m\<bar> \<le> 2 ^ 21" using Cons.prems by simp
  have step: "movingAverageFilter (on_grid k m) (grid_state k ws i) =
      Inr (fdiv (on_grid k (sum_list (ws[i := m]))) 5, grid_state k (ws[i := m]) ((i + 1) mod 5))"
    using Cons.prems m by (intro movingAverageFilter_grid) auto
  have b: "\<forall>w\<in>set (ws[i := m]). \<bar>w\<bar> \<le> 2 ^ 21"
    using Cons.prems(4) m by (auto dest: set_update_subset_insert [THEN subsetD])
  have "\<exists>avgs ws' i'. filter_run (map (on_grid k) ms) (grid_state k (ws[i := m]) ((i + 1) mod 5)) =
           Inr (avgs, grid_state k ws' i') \<and>
           length ws' = 5 \<and> i' < 5 \<and> (\<forall>w\<in>set ws'. \<bar>w\<bar> \<le> 2 ^ 21)"
    using Cons.prems b by (intro Cons.IH) auto
  then obtain avgs ws' i' where
    "filter_run (map (on_grid k) ms) (grid_state k (ws[i := m]) ((i + 1) mod 5)) = Inr (avgs, grid_state k ws' i')"
    "length ws' = 5" "i' < 5" "\<forall>w\<in>set ws'. \<bar>w\<bar> \<le> 2 ^ 21"
    by blast
  then show ?case using step by auto
qed

lemma filter_init_grid: "filter_init = grid_state k [0, 0, 0, 0, 0] 0"
  by (simp add: filter_init_def grid_state_def WINDOW_SIZE_def eval_nat_numeral)

lemma filter_run_in_bounds:
  assumes "length (gyro_buffer st) = WINDOW_SIZE" "gyro_index st < WINDOW_SIZE"
  shows "\<exists>avgs st'. filter_run vs st = Inr (avgs, st') \<and> length avgs = length vs \<and>
           length (gyro_buffer st') = WINDOW_SIZE \<and> gyro_index st' < WINDOW_SIZE"
  using assms
proof (induction vs arbitrary: st)
  case Nil
  then show ?case by simp
next
  case (Cons v vs)
  obtain avg st1 where step: "movingAverageFilter v st = Inr (avg, st1)"
    and inv: "length (gyro_buffer st1) = WINDOW_SIZE" "gyro_index st1 < WINDOW_SIZE"
    using Cons.prems by (auto simp: movingAverageFilter_def Let_def WINDOW_SIZE_def)
  from Cons.IH [OF inv] obtain avgs st' where
    "filter_run vs st1 = Inr (avgs, st')" "length avgs = length vs"
    "length (gyro_buffer st') = WINDOW_SIZE" "gyro_index st' < WINDOW_SIZE"
    by blast
  then show ?case using step by simp
qed


lemma filter_run_Cons_Inr:
  "movingAverageFilter v st = Inr (avg, st') \<Longrightarrow> filter_run vs st' = Inr (avgs, st'') \<Longrightarrow>
   filter_run (v # vs) st = Inr (avg # avgs, st'')"
  by simp

lemma filter_run_identical:
  assumes m: "\<bar>m\<bar> \<le> 2 ^ 21"
  shows "\<exists>avgs st. filter_run (replicate WINDOW_SIZE (on_grid k m)) filter_init = Inr (avgs, st) \<and>
           last avgs = on_grid k m"
proof -
  let ?v = "on_grid k m"
  have s1: "movingAverageFilter ?v (grid_state k [0, 0, 0, 0, 0] 0) =
      Inr (fdiv (on_grid k m) 5, grid_state k [m, 0, 0, 0, 0] 1)"
    using movingAverageFilter_grid [of "[0, 0, 0, 0, 0]" 0 m k] m by (simp add: numeral_2_eq_2)
  have s2: "movingAverageFilter ?v (grid_state k [m, 0, 0, 0, 0] 1) =
      Inr (fdiv (on_grid k (m + m)) 5, grid_state k [m, m, 0, 0, 0] 2)"
    using movingAverageFilter_grid [of "[m, 0, 0, 0, 0]" 1 m k] m by (simp add: numeral_2_eq_2)
  have s3: "movingAverageFilter ?v (grid_state k [m, m, 0, 0, 0] 2) =
      Inr (fdiv (on_grid k (m + m + m)) 5, grid_state k [m, m, m, 0, 0] 3)"
    using movingAverageFilter_grid [of "[m, m, 0, 0, 0]" 2 m k] m by (simp add: numeral_2_eq_2)
  have s4: "movingAverageFilter ?v (grid_state k [m, m, m, 0, 0] 3) =
      Inr (fdiv (on_grid k (m + m + m + m)) 5, grid_state k [m, m, m, m, 0] 4)"
    using movingAverageFilter_grid [of "[m, m, m, 0, 0]" 3 m k] m by (simp add: numeral_2_eq_2)
  have "\<bar>m\<bar> < 2 ^ 24" using m by simp
  then have "f32 (on_grid k m) = on_grid k m" by (rule f32_on_grid)
  moreover have "on_grid k (m + m + m + m + m) / 5 = on_grid k m"
    by (simp add: on_grid_def)
  ultimately have last: "fdiv (on_grid k (m + m + m + m + m)) 5 = on_grid k m"
    unfolding fdiv_def by simp
  have "movingAverageFilter ?v (grid_state k [m, m, m, m, 0] 4) =
      Inr (fdiv (on_grid k (m + m + m + m + m)) 5, grid_state k [m, m, m, m, m] 0)"
    using movingAverageFilter_grid [of "[m, m, m, m, 0]" 4 m k] m by (simp add: numeral_2_eq_2)
  then have s5: "movingAverageFilter ?v (grid_state k [m, m, m, m, 0] 4) =
      Inr (on_grid k m, grid_state k [m, m, m, m, m] 0)"
    unfolding last .
  have r5: "filter_run [] (grid_state k [m, m, m, m, m] 0) = Inr ([], grid_state k [m, m, m, m, m] 0)"
    by simp
  note r4 = filter_run_Cons_Inr [OF s5 r5]
  note r3 = filter_run_Cons_Inr [OF s4 r4]
  note r2 = filter_run_Cons_Inr [OF s3 r3]
  note r1 = filter_run_Cons_Inr [OF s2 r2]
  note r0 = filter_run_Cons_Inr [OF s1 r1]
  have rep: "replicate WINDOW_SIZE ?v = [?v, ?v, ?v, ?v, ?v]"
    by (simp add: WINDOW_SIZE_def numeral_eq_Suc)
  show ?thesis
    unfolding rep filter_init_grid [of k] r0 by simp
qed

text \<open>
  C10, as claimed: after each push the running sum equals the sum of the five values in
  the window, and after five pushes of the same value \<open>v\<close> the average returned is \<open>v\<close>.
  Five pushes of \<open>v = 16777215\<close> (\<open>2^24 - 1\<close>) from the initial state: the third, fourth
  and fifth addition round, the running sum ends at 83886072 where the five values sum
  to 83886075, and the fifth average is 16777214. And the pushes 16777216, 1, 1, 1, 1,
  0 from the initial state: each addition of 1 is rounded away, the last push subtracts
  16777216, and the running sum is 0 over the window \<open>[0, 1, 1, 1, 1]\<close>.
\<close>

theorem moving_average_filter_drifts:
  "filter_run [16777215, 16777215, 16777215, 16777215, 16777215] filter_init =
     Inr ([3355443, 6710886, 10066329, 13421772, 16777214],
          \<lparr>gyro_buffer = [16777215, 16777215, 16777215, 16777215, 16777215], gyro_index = 0,
           gyro_sum = 83886072\<rparr>) \<and>
   filter_run [16777216, 1, 1, 1, 1, 0] filter_init =
     Inr ([13421773 / 4, 13421773 / 4, 13421773 / 4, 13421773 / 4, 13421773 / 4, 0],
          \<lparr>gyro_buffer = [0, 1, 1, 1, 1], gyro_index = 1, gyro_sum = 0\<rparr>)"
proof -
  have r [simp]: "f32 33554430 = 33554430" "f32 50331644 = 50331644" "f32 67108860 = 67108860"
    "f32 16777216 = 16777216"
    using f32_exact [of 16777215 1] f32_exact [of 12582911 2] f32_exact [of 16777215 2]
      f32_exact [of 1 24]
    by simp_all
  have t [simp]: "f32 50331645 = 50331644" "f32 67108859 = 67108860" "f32 83886075 = 83886072"
    "f32 16777217 = 16777216"
    using f32_binade [of 25 50331645] f32_binade [of 25 67108859] f32_binade [of 26 83886075]
      f32_binade [of 24 16777217]
    by (simp_all add: rne_def)
  have d [simp]: "f32 (50331644 / 5) = 10066329" "f32 (83886072 / 5) = 16777214"
    "f32 (16777216 / 5) = 13421773 / 4"
    using f32_binade [of 23 "50331644 / 5"] f32_binade [of 23 "83886072 / 5"]
      f32_binade [of 21 "16777216 / 5"]
    by (simp_all add: rne_def)
  have init: "filter_init = \<lparr>gyro_buffer = [0, 0, 0, 0, 0], gyro_index = 0, gyro_sum = 0\<rparr>"
    by (simp add: filter_init_def WINDOW_SIZE_def numeral_eq_Suc)
  let ?v = "16777215 :: real"
  have p1: "movingAverageFilter ?v \<lparr>gyro_buffer = [0, 0, 0, 0, 0], gyro_index = 0, gyro_sum = 0\<rparr> =
      Inr (3355443, \<lparr>gyro_buffer = [?v, 0, 0, 0, 0], gyro_index = 1, gyro_sum = 16777215\<rparr>)"
    by (simp add: movingAverageFilter_def WINDOW_SIZE_def float_ops Let_def)
  have p2: "movingAverageFilter ?v \<lparr>gyro_buffer = [?v, 0, 0, 0, 0], gyro_index = 1, gyro_sum = 16777215\<rparr> =
      Inr (6710886, \<lparr>gyro_buffer = [?v, ?v, 0, 0, 0], gyro_index = 2, gyro_sum = 33554430\<rparr>)"
    by (simp add: movingAverageFilter_def WINDOW_SIZE_def float_ops Let_def numeral_2_eq_2)
  have p3: "movingAverageFilter ?v \<lparr>gyro_buffer = [?v, ?v, 0, 0, 0], gyro_index = 2, gyro_sum = 33554430\<rparr> =
      Inr (10066329, \<lparr>gyro_buffer = [?v, ?v, ?v, 0, 0], gyro_index = 3, gyro_sum = 50331644\<rparr>)"
    by (simp add: movingAverageFilter_def WINDOW_SIZE_def float_ops Let_def)
  have p4: "movingAverageFilter ?v \<lparr>gyro_buffer = [?v, ?v, ?v, 0, 0], gyro_index = 3, gyro_sum = 50331644\<rparr> =
      Inr (13421772, \<lparr>gyro_buffer = [?v, ?v, ?v, ?v, 0], gyro_index = 4, gyro_sum = 67108860\<rparr>)"
    by (simp add: movingAverageFilter_def WINDOW_SIZE_def float_ops Let_def)
  have p5: "movingAverageFilter ?v \<lparr>gyro_buffer = [?v, ?v, ?v, ?v, 0], gyro_index = 4, gyro_sum = 67108860\<rparr> =
      Inr (16777214, \<lparr>gyro_buffer = [?v, ?v, ?v, ?v, ?v], gyro_index = 0, gyro_sum = 83886072\<rparr>)"
    by (simp add: movingAverageFilter_def WINDOW_SIZE_def float_ops Let_def)
  have r5: "filter_run [] \<lparr>gyro_buffer = [?v, ?v, ?v, ?v, ?v], gyro_index = 0, gyro_sum = 83886072\<rparr> =
      Inr ([], \<lparr>gyro_buffer = [?v, ?v, ?v, ?v, ?v], gyro_index = 0, gyro_sum = 83886072\<rparr>)"
    by simp
  note r4 = filter_run_Cons_Inr [OF p5 r5]
  note r3 = filter_run_Cons_Inr [OF p4 r4]
  note r2 = filter_run_Cons_Inr [OF p3 r3]
  note r1 = filter_run_Cons_Inr [OF p2 r2]
  note r0 = filter_run_Cons_Inr [OF p1 r1]
  let ?b = "16777216 :: real"
  let ?a = "13421773 / 4 :: real"
  have q1: "movingAverageFilter ?b \<lparr>gyro_buffer = [0, 0, 0, 0, 0], gyro_index = 0, gyro_sum = 0\<rparr> =
      Inr (?a, \<lparr>gyro_buffer = [?b, 0, 0, 0, 0], gyro_index = 1, gyro_sum = ?b\<rparr>)"
    by (simp add: movingAverageFilter_def WINDOW_SIZE_def float_ops Let_def)
  have q2: "movingAverageFilter 1 \<lparr>gyro_buffer = [?b, 0, 0, 0, 0], gyro_index = 1, gyro_sum = ?b\<rparr> =
      Inr (?a, \<lparr>gyro_buffer = [?b, 1, 0, 0, 0], gyro_index = 2, gyro_sum = ?b\<rparr>)"
    by (simp add: movingAverageFilter_def WINDOW_SIZE_def float_ops Let_def numeral_2_eq_2)
  have q3: "movingAverageFilter 1 \<lparr>gyro_buffer = [?b, 1, 0, 0, 0], gyro_index = 2, gyro_sum = ?b\<rparr> =
      Inr (?a, \<lparr>gyro_buffer = [?b, 1, 1, 0, 0], gyro_index = 3, gyro_sum = ?b\<rparr>)"
    by (simp add: movingAverageFilter_def WINDOW_SIZE_def float_ops Let_def)
  have q4: "movingAverageFilter 1 \<lparr>gyro_buffer = [?b, 1, 1, 0, 0], gyro_index = 3, gyro_sum = ?b\<rparr> =
      Inr (?a, \<lparr>gyro_buffer = [?b, 1, 1, 1, 0], gyro_index = 4, gyro_sum = ?b\<rparr>)"
    by (simp add: movingAverageFilter_def WINDOW_SIZE_def float_ops Let_def)
  have q5: "movingAverageFilter 1 \<lparr>gyro_buffer = [?b, 1, 1, 1, 0], gyro_index = 4, gyro_sum = ?b\<rparr> =
      Inr (?a, \<lparr>gyro_buffer = [?b, 1, 1, 1, 1], gyro_index = 0, gyro_sum = ?b\<rparr>)"
    by (simp add: movingAverageFilter_def WINDOW_SIZE_def float_ops Let_def)
  have q6: "movingAverageFilter 0 \<lparr>gyro_buffer = [?b, 1, 1, 1, 1], gyro_index = 0, gyro_sum = ?b\<rparr> =
      Inr (0, \<lparr>gyro_buffer = [0, 1, 1, 1, 1], gyro_index = 1, gyro_sum = 0\<rparr>)"
    by (simp add: movingAverageFilter_def WINDOW_SIZE_def float_ops Let_def)
  have u6: "filter_run [] \<lparr>gyro_buffer = [0, 1, 1, 1, 1], gyro_index = 1, gyro_sum = 0\<rparr> =
      Inr ([], \<lparr>gyro_buffer = [0, 1, 1, 1, 1], gyro_index = 1, gyro_sum = 0\<rparr>)"
    by simp
  note u5 = filter_run_Cons_Inr [OF q6 u6]
  note u4 = filter_run_Cons_Inr [OF q5 u5]
  note u3 = filter_run_Cons_Inr [OF q4 u4]
  note u2 = filter_run_Cons_Inr [OF q3 u3]
  note u1 = filter_run_Cons_Inr [OF q2 u2]
  note u0 = filter_run_Cons_Inr [OF q1 u1]
  show ?thesis
    unfolding init r0 u0 by simp
qed

text \<open>
  C10, amended. From the zero-initialised state, for every sequence of pushes: no call
  reads or writes outside the window, and the index stays below \<^verbatim>\<open>WINDOW_SIZE\<close>. When the
  values pushed are numbers \<open>m * 2^k\<close> of one grid \<open>k\<close> inside the exponent range of the
  format (\<open>-149 \<le> k \<le> 104\<close>) with \<open>\<bar>m\<bar> \<le> 2^21\<close>, so that no addition or
  subtraction of the filter rounds, the running sum after the pushes equals
  the sum of the window, and five pushes of one such value \<open>v\<close> return \<open>v\<close> as the fifth
  average. The sequence of pushes is arbitrary, so this covers the state after each push.
\<close>

theorem moving_average_filter_exact_on_grid:
  "(\<exists>avgs st. filter_run vs filter_init = Inr (avgs, st) \<and> length avgs = length vs \<and>
      length (gyro_buffer st) = WINDOW_SIZE \<and> gyro_index st < WINDOW_SIZE) \<and>
   (- 149 \<le> k \<and> k \<le> 104 \<and> list_all (\<lambda>m. \<bar>m\<bar> \<le> 2 ^ 21) ms \<longrightarrow>
      (\<exists>avgs st. filter_run (map (on_grid k) ms) filter_init = Inr (avgs, st) \<and>
         gyro_sum st = sum_list (gyro_buffer st))) \<and>
   (- 149 \<le> k \<and> k \<le> 104 \<and> \<bar>m\<bar> \<le> 2 ^ 21 \<longrightarrow>
      (\<exists>avgs st. filter_run (replicate WINDOW_SIZE (on_grid k m)) filter_init = Inr (avgs, st) \<and>
         last avgs = on_grid k m))"
proof (intro conjI impI)
  show "\<exists>avgs st. filter_run vs filter_init = Inr (avgs, st) \<and> length avgs = length vs \<and>
      length (gyro_buffer st) = WINDOW_SIZE \<and> gyro_index st < WINDOW_SIZE"
    by (rule filter_run_in_bounds) (simp_all add: filter_init_def WINDOW_SIZE_def)
next
  assume "- 149 \<le> k \<and> k \<le> 104 \<and> list_all (\<lambda>m. \<bar>m\<bar> \<le> 2 ^ 21) ms"
  then have "\<forall>m\<in>set ms. \<bar>m\<bar> \<le> 2 ^ 21" by (simp add: list_all_iff)
  from filter_run_grid [OF this, of "[0, 0, 0, 0, 0]" 0 k]
  obtain avgs ws' i' where
    "filter_run (map (on_grid k) ms) filter_init = Inr (avgs, grid_state k ws' i')"
    by (auto simp: filter_init_grid [of k])
  moreover have "gyro_sum (grid_state k ws' i') = sum_list (gyro_buffer (grid_state k ws' i'))"
    by (simp add: grid_state_def sum_list_on_grid)
  ultimately show "\<exists>avgs st. filter_run (map (on_grid k) ms) filter_init = Inr (avgs, st) \<and>
         gyro_sum st = sum_list (gyro_buffer st)"
    by blast
next
  assume "- 149 \<le> k \<and> k \<le> 104 \<and> \<bar>m\<bar> \<le> 2 ^ 21"
  then have "\<bar>m\<bar> \<le> 2 ^ 21" by simp
  then show "\<exists>avgs st. filter_run (replicate WINDOW_SIZE (on_grid k m)) filter_init = Inr (avgs, st) \<and>
         last avgs = on_grid k m"
    by (rule filter_run_identical)
qed

theorem moving_average_filter_exact_on_grid_witness:
  "- 149 \<le> (- 4 :: int) \<and> (- 4 :: int) \<le> 104 \<and>
   list_all (\<lambda>m. \<bar>m\<bar> \<le> 2 ^ 21) [3, - 5, 8, 0, 1, 2 :: int] \<and>
   (\<exists>avgs st. filter_run (map (on_grid (- 4)) [3, - 5, 8, 0, 1, 2]) filter_init = Inr (avgs, st) \<and>
      gyro_sum st = sum_list (gyro_buffer st)) \<and>
   \<bar>7 :: int\<bar> \<le> 2 ^ 21 \<and>
   (\<exists>avgs st. filter_run (replicate WINDOW_SIZE (on_grid (- 4) 7)) filter_init = Inr (avgs, st) \<and>
      last avgs = on_grid (- 4) 7)"
  using moving_average_filter_exact_on_grid [of "[]" "- 4" "[3, - 5, 8, 0, 1, 2]" 7]
  by simp

end
